theory Spec2Isabelle
  imports Complex_Main "HOL-Library.Word"
begin

unbundle bit_operations_syntax

section \<open>Strings\<close>

text \<open>
  Python strings are modelled as \<^typ>\<open>string\<close> restricted to ASCII text: the
  whitespace of \<^verbatim>\<open>str.strip()\<close> is the ASCII part of Python's whitespace set, and
  \<^verbatim>\<open>str.upper()\<close> / \<^verbatim>\<open>str.lower()\<close> change the letters a-z / A-Z only.
\<close>

definition is_space :: "char \<Rightarrow> bool" where
  "is_space c = (let n = (of_char c :: nat) in (9 \<le> n \<and> n \<le> 13) \<or> (28 \<le> n \<and> n \<le> 32))"

definition rstrip :: "string \<Rightarrow> string" where
  "rstrip s = rev (dropWhile is_space (rev s))"

definition strip :: "string \<Rightarrow> string" where
  "strip s = rstrip (dropWhile is_space s)"

definition upper_char :: "char \<Rightarrow> char" where
  "upper_char c = (let n = (of_char c :: nat) in if 97 \<le> n \<and> n \<le> 122 then char_of (n - 32) else c)"

definition lower_char :: "char \<Rightarrow> char" where
  "lower_char c = (let n = (of_char c :: nat) in if 65 \<le> n \<and> n \<le> 90 then char_of (n + 32) else c)"

definition upper :: "string \<Rightarrow> string" where
  "upper s = map upper_char s"

definition lower :: "string \<Rightarrow> string" where
  "lower s = map lower_char s"

definition is_digit :: "char \<Rightarrow> bool" where
  "is_digit c = (let n = (of_char c :: nat) in 48 \<le> n \<and> n \<le> 57)"

definition digits_val :: "string \<Rightarrow> nat" where
  "digits_val s = foldl (\<lambda>a c. 10 * a + ((of_char c :: nat) - 48)) 0 s"

definition all_digits :: "string \<Rightarrow> bool" where
  "all_digits s = list_all is_digit s"

text \<open>An optional leading sign, as both number parsers accept it.\<close>

fun split_sign :: "string \<Rightarrow> bool \<times> string" where
  "split_sign [] = (False, [])"
| "split_sign (c # cs) =
     (if c = CHR ''-'' then (True, cs) else if c = CHR ''+'' then (False, cs) else (False, c # cs))"

section \<open>The library parsers used by the row validator\<close>

subsection \<open>\<^verbatim>\<open>decimal.Decimal(str)\<close>\<close>

text \<open>
  The value keeps what the validator can observe: a finite number is sign, coefficient
  and exponent (the value is \<open>\<plusminus> coefficient * 10 ^ exponent\<close>), and the special values
  are the infinities and NaN. The constructor strips surrounding whitespace, drops every
  underscore, and then accepts the grammar
  \<^verbatim>\<open>[sign] (digits [. [digits]] | . digits) [e [sign] digits] | [sign] inf[inity] | [sign] [s]nan[digits]\<close>,
  letters in either case. A finite number must be exactly representable: with
  \<open>M = 999999999999999999\<close> (the largest exponent of a 64-bit build), its adjusted
  exponent is at most \<open>M\<close> and its exponent at least \<open>- (2 * M - 1)\<close>.
  \<open>None\<close> stands for \<^verbatim>\<open>InvalidOperation\<close>.
\<close>

datatype decimal = Finite bool nat int | Infinity bool | NaN

fun split_at :: "char \<Rightarrow> string \<Rightarrow> string \<times> string option" where
  "split_at d [] = ([], None)"
| "split_at d (c # cs) =
     (if c = d then ([], Some cs)
      else (case split_at d cs of (a, b) \<Rightarrow> (c # a, b)))"

definition parse_exponent :: "string option \<Rightarrow> int option" where
  "parse_exponent e =
     (case e of
        None \<Rightarrow> Some 0
      | Some t \<Rightarrow>
          (case split_sign t of (neg, ds) \<Rightarrow>
             if ds \<noteq> [] \<and> all_digits ds
             then Some (if neg then - int (digits_val ds) else int (digits_val ds))
             else None))"

function ndigits :: "nat \<Rightarrow> nat" where
  "ndigits n = (if n < 10 then 1 else Suc (ndigits (n div 10)))"
  by pat_completeness auto
termination
  by (relation "measure (\<lambda>n. n)") auto

declare ndigits.simps [simp del]

definition MAX_EMAX :: int where
  "MAX_EMAX = 999999999999999999"

definition representable :: "nat \<Rightarrow> int \<Rightarrow> bool" where
  "representable c e = (e + int (ndigits c) - 1 \<le> MAX_EMAX \<and> - (2 * MAX_EMAX - 1) \<le> e)"

definition parse_finite :: "bool \<Rightarrow> string \<Rightarrow> decimal option" where
  "parse_finite neg l =
     (case split_at (CHR ''e'') l of (mant, ex) \<Rightarrow>
        (case split_at (CHR ''.'') mant of (ip, fr) \<Rightarrow>
           (let fp = (case fr of None \<Rightarrow> [] | Some f \<Rightarrow> f)
            in if all_digits ip \<and> all_digits fp \<and> ip @ fp \<noteq> []
               then (case parse_exponent ex of
                       None \<Rightarrow> None
                     | Some e \<Rightarrow>
                         (let c = digits_val (ip @ fp); x = e - int (length fp)
                          in if representable c x then Some (Finite neg c x) else None))
               else None)))"

definition is_nan_literal :: "string \<Rightarrow> bool" where
  "is_nan_literal l =
     ((take 3 l = ''nan'' \<and> all_digits (drop 3 l)) \<or> (take 4 l = ''snan'' \<and> all_digits (drop 4 l)))"

definition Decimal :: "string \<Rightarrow> decimal option" where
  "Decimal s =
     (let t = filter (\<lambda>c. c \<noteq> CHR ''_'') (strip s)
      in case split_sign t of (neg, u) \<Rightarrow>
           (let l = lower u
            in if l = ''inf'' \<or> l = ''infinity'' then Some (Infinity neg)
               else if is_nan_literal l then Some NaN
               else parse_finite neg l))"

text \<open>
  \<^verbatim>\<open>price < 0\<close> on a \<^verbatim>\<open>Decimal\<close>: an ordering comparison with NaN signals
  \<^verbatim>\<open>InvalidOperation\<close> (\<open>None\<close>); negative zero is not below zero.
\<close>

fun decimal_lt_zero :: "decimal \<Rightarrow> bool option" where
  "decimal_lt_zero NaN = None"
| "decimal_lt_zero (Infinity neg) = Some neg"
| "decimal_lt_zero (Finite neg c e) = Some (neg \<and> c \<noteq> 0)"

subsection \<open>\<^verbatim>\<open>int(str)\<close>\<close>

text \<open>
  Base ten: surrounding whitespace, an optional sign, then digits in which single
  underscores may separate digits. \<open>None\<close> stands for \<^verbatim>\<open>ValueError\<close>. The
  interpreter's optional limit on the number of digits is not modelled.
\<close>

fun grouped_digits :: "string \<Rightarrow> bool" where
  "grouped_digits [] = False"
| "grouped_digits [c] = is_digit c"
| "grouped_digits (c # d # cs) =
     (is_digit c \<and> (if d = CHR ''_'' then grouped_digits cs else grouped_digits (d # cs)))"

definition py_int :: "string \<Rightarrow> int option" where
  "py_int s =
     (case split_sign (strip s) of (neg, u) \<Rightarrow>
        if grouped_digits u
        then (let n = int (digits_val (filter (\<lambda>c. c \<noteq> CHR ''_'') u)) in Some (if neg then - n else n))
        else None)"

section \<open>Row validator: \<^verbatim>\<open>parse_csv_row\<close>\<close>

type_synonym csv_row = "string \<rightharpoonup> string"

record product_data =
  sku :: string
  name :: string
  description :: "string option"
  price :: "decimal option"
  quantity :: int
  is_active :: bool

text \<open>The returned dictionary: \<^verbatim>\<open>{"valid": True, "data": ...}\<close> or
  \<^verbatim>\<open>{"valid": False, "errors": ..., "row": ...}\<close>.\<close>

datatype parsed = Valid product_data | Invalid "string list" int

definition get :: "csv_row \<Rightarrow> string \<Rightarrow> string" where
  "get row k = (case row k of None \<Rightarrow> [] | Some v \<Rightarrow> v)"

definition parse_csv_row :: "csv_row \<Rightarrow> int \<Rightarrow> parsed" where
  "parse_csv_row row row_num =
     (let errors = [];
          sku_v = strip (get row ''sku'');
          name_v = strip (get row ''name'');
          errors = (if sku_v = [] then errors @ [''SKU is required''] else errors);
          errors = (if name_v = [] then errors @ [''Name is required''] else errors);
          description_v = (let d = strip (get row ''description'') in if d = [] then None else Some d);
          price_str = strip (get row ''price'');
          (price_v, errors) =
            (if price_str \<noteq> [] then
               (case Decimal price_str of
                  None \<Rightarrow> (None, errors @ [''Invalid price format: '' @ price_str])
                | Some p \<Rightarrow>
                    (case decimal_lt_zero p of
                       None \<Rightarrow> (Some p, errors @ [''Invalid price format: '' @ price_str])
                     | Some True \<Rightarrow> (Some p, errors @ [''Price cannot be negative''])
                     | Some False \<Rightarrow> (Some p, errors)))
             else (None, errors));
          quantity_str = strip (get row ''quantity'');
          (quantity_v, errors) =
            (if quantity_str \<noteq> [] then
               (case py_int quantity_str of
                  None \<Rightarrow> (0, errors @ [''Invalid quantity format: '' @ quantity_str])
                | Some q \<Rightarrow>
                    if q < 0 then (q, errors @ [''Quantity cannot be negative'']) else (q, errors))
             else (0, errors))
      in if errors \<noteq> [] then Invalid errors row_num
         else Valid \<lparr> sku = upper sku_v, name = name_v, description = description_v,
                      price = price_v, quantity = quantity_v, is_active = True \<rparr>)"

text \<open>
  The rules of the validator read on their own, one definition per field: what each
  rule reports for a row, and the list of every report in the order of the rules.
\<close>

definition sku_errors :: "csv_row \<Rightarrow> string list" where
  "sku_errors row = (if strip (get row ''sku'') = [] then [''SKU is required''] else [])"

definition name_errors :: "csv_row \<Rightarrow> string list" where
  "name_errors row = (if strip (get row ''name'') = [] then [''Name is required''] else [])"

definition price_errors :: "csv_row \<Rightarrow> string list" where
  "price_errors row =
     (let s = strip (get row ''price'')
      in if s = [] then []
         else (case Decimal s of
                 None \<Rightarrow> [''Invalid price format: '' @ s]
               | Some p \<Rightarrow>
                   (case decimal_lt_zero p of
                      None \<Rightarrow> [''Invalid price format: '' @ s]
                    | Some b \<Rightarrow> if b then [''Price cannot be negative''] else [])))"

definition quantity_errors :: "csv_row \<Rightarrow> string list" where
  "quantity_errors row =
     (let s = strip (get row ''quantity'')
      in if s = [] then []
         else (case py_int s of
                 None \<Rightarrow> [''Invalid quantity format: '' @ s]
               | Some q \<Rightarrow> if q < 0 then [''Quantity cannot be negative''] else []))"

definition field_errors :: "csv_row \<Rightarrow> string list" where
  "field_errors row = sku_errors row @ name_errors row @ price_errors row @ quantity_errors row"

section \<open>Product store and the upsert engine: \<^verbatim>\<open>upsert_products\<close>\<close>

text \<open>
  A row of the \<^verbatim>\<open>products\<close> table: the columns of the import record and the primary
  key. The two timestamp columns are left out. The table is the list of its rows in
  insertion order; the primary key of a new row is the successor of the largest key.
\<close>

record product = product_data +
  id' :: nat

definition next_id :: "product list \<Rightarrow> nat" where
  "next_id table = Suc (fold max (map id' table) 0)"

definition new_row :: "product list \<Rightarrow> product_data \<Rightarrow> product" where
  "new_row table p =
     \<lparr> sku = sku p, name = name p, description = description p, price = price p,
       quantity = quantity p, is_active = is_active p, id' = next_id table \<rparr>"

text \<open>
  \<^verbatim>\<open>INSERT ... VALUES (rows) ON CONFLICT (sku) DO UPDATE SET name, description, price,
  quantity, updated_at\<close> as PostgreSQL runs it: the proposed rows are taken in order; a
  row whose SKU is in the table is updated in the four listed columns, any other row is
  appended; a proposed row whose SKU an earlier row of the same statement has already
  touched aborts the whole statement ("command cannot affect row a second time").
\<close>

datatype store_error = CardinalityViolation

definition on_conflict_update :: "product_data \<Rightarrow> product \<Rightarrow> product" where
  "on_conflict_update p r =
     (if sku r = sku p
      then r\<lparr> name := name p, description := description p, price := price p, quantity := quantity p \<rparr>
      else r)"

fun insert_on_conflict :: "string list \<Rightarrow> product_data list \<Rightarrow> product list \<Rightarrow> store_error + product list" where
  "insert_on_conflict touched [] table = Inr table"
| "insert_on_conflict touched (p # ps) table =
     (if sku p \<in> set touched then Inl CardinalityViolation
      else if sku p \<in> set (map sku table)
           then insert_on_conflict (sku p # touched) ps (map (on_conflict_update p) table)
           else insert_on_conflict (sku p # touched) ps (table @ [new_row table p]))"

text \<open>The query \<^verbatim>\<open>db.query(Product.sku).filter(func.upper(Product.sku).in_(skus))\<close>.\<close>

definition existing_skus :: "product list \<Rightarrow> string list \<Rightarrow> string list" where
  "existing_skus table skus = map sku (filter (\<lambda>r. upper (sku r) \<in> set skus) table)"

fun count_created_updated :: "string list \<Rightarrow> product_data list \<Rightarrow> int \<times> int \<Rightarrow> int \<times> int" where
  "count_created_updated existing [] (created_n, updated_n) = (created_n, updated_n)"
| "count_created_updated existing (product_data # rest) (created_n, updated_n) =
     (if sku product_data \<in> set existing
      then count_created_updated existing rest (created_n, updated_n + 1)
      else count_created_updated existing rest (created_n + 1, updated_n))"

definition upsert_products :: "product list \<Rightarrow> product_data list \<Rightarrow> store_error + (product list \<times> int \<times> int)" where
  "upsert_products table products =
     (if products = [] then Inr (table, 0, 0)
      else
        (let skus = map sku products;
             existing = existing_skus table skus;
             (created_n, updated_n) = count_created_updated existing products (0, 0)
         in case insert_on_conflict [] products table of
              Inl e \<Rightarrow> Inl e
            | Inr table' \<Rightarrow> Inr (table', created_n, updated_n)))"

section \<open>Import orchestrator: \<^verbatim>\<open>import_csv_task\<close>\<close>

subsection \<open>Job row, settings, file\<close>

datatype job_status = Pending | Parsing | Validating | Importing | Completed | Failed

record counters =
  processed_rows :: int
  success_count :: int
  error_count :: int
  created_count :: int
  updated_count :: int

record progress = counters +
  status :: job_status
  total_rows :: int

datatype py_error = ZeroDivisionError | StoreError store_error

text \<open>An entry of the \<^verbatim>\<open>error_details\<close> column: a rejected row (row number, its
  errors, its raw SKU) or the message of the exception that failed the job.\<close>

datatype error_detail = RowError int "string list" string | Message py_error

record import_job = progress +
  error_details :: "error_detail list option"

record settings =
  CHUNK_SIZE :: int
  PROGRESS_UPDATE_INTERVAL :: int

definition default_settings :: settings where
  "default_settings = \<lparr> CHUNK_SIZE = 5000, PROGRESS_UPDATE_INTERVAL = 1000 \<rparr>"

text \<open>
  The uploaded file as the task reads it, twice: \<open>physical_lines\<close> is what iterating the
  text file yields, \<open>reader_rows\<close> is what \<^verbatim>\<open>csv.DictReader\<close> yields after the header,
  each row a field map with string values.
\<close>

record csv_file =
  physical_lines :: "string list"
  reader_rows :: "csv_row list"

definition count_csv_rows :: "csv_file \<Rightarrow> int" where
  "count_csv_rows f = int (length (physical_lines f)) - 1"

subsection \<open>Progress percentage\<close>

text \<open>
  \<^verbatim>\<open>round(x, 2)\<close> rounds half to even. The percentage is computed here in exact
  rational arithmetic; the rounding error of the binary floating point of the source is
  not modelled.
\<close>

definition round_half_even :: "rat \<Rightarrow> int" where
  "round_half_even x =
     (let f = \<lfloor>x\<rfloor>; r = x - of_int f
      in if r < 1 / 2 then f else if 1 / 2 < r then f + 1 else if even f then f else f + 1)"

definition round2 :: "rat \<Rightarrow> rat" where
  "round2 x = of_int (round_half_even (x * 100)) / 100"

text \<open>The expression of the periodic snapshot,
  \<^verbatim>\<open>round(processed_rows / total_rows * 100, 2)\<close>.\<close>

definition snapshot_percentage :: "int \<Rightarrow> int \<Rightarrow> py_error + rat" where
  "snapshot_percentage processed tot =
     (if tot = 0 then Inl ZeroDivisionError
      else Inr (round2 (of_int processed / of_int tot * 100)))"


subsection \<open>What the task changes\<close>

text \<open>
  A snapshot written to the fast channel: the progress fields and, where the dictionary
  has it, the percentage; or the failure snapshot with the exception and the four
  counters it reads back from the job row (processed, total, success, error). The
  message texts are left out.
\<close>

datatype snapshot = Progress progress "rat option" | Failure py_error int int int int

text \<open>
  The task works on the job row and the products table. \<open>log\<close> records, oldest first,
  each assignment to \<^verbatim>\<open>import_job.status\<close>, each call of \<^verbatim>\<open>update_progress\<close>
  and each call of \<^verbatim>\<open>upsert_products\<close> that returned (with the size of its batch).

  The exceptions of the model are the ones the code computes: the division and the
  modulo by zero, and the statement of the upsert that the store aborts. That the
  database connection, the fast channel, the queue or the file system fail is not
  modelled, nor is the state of the database session after an aborted statement: the
  assignments and commits of the handler take effect as they are written.
\<close>

datatype event = StatusSet job_status | Published snapshot | Upserted nat

record world =
  job :: import_job
  products :: "product list"
  log :: "event list"

text \<open>The local variables of the streaming pass.\<close>

record locals = counters +
  error_details' :: "error_detail list"
  batch :: "product_data list"

definition snapshot_of :: "job_status \<Rightarrow> int \<Rightarrow> 'a counters_scheme \<Rightarrow> rat option \<Rightarrow> snapshot" where
  "snapshot_of st tot c pct =
     Progress \<lparr> processed_rows = processed_rows c, success_count = success_count c,
                error_count = error_count c, created_count = created_count c,
                updated_count = updated_count c, status = st, total_rows = tot \<rparr> pct"

subsection \<open>One iteration of the loop over the reader\<close>

text \<open>Lines 156 to 170: validate the row, then count it.\<close>

definition account_row :: "csv_row \<Rightarrow> int \<Rightarrow> locals \<Rightarrow> locals" where
  "account_row row row_num l =
     (let l1 =
            (case parse_csv_row row row_num of
               Valid d \<Rightarrow> l\<lparr> success_count := success_count l + 1, batch := batch l @ [d] \<rparr>
             | Invalid errs n \<Rightarrow>
                 l\<lparr> error_count := error_count l + 1,
                    error_details' :=
                      (if length (error_details' l) < 100
                       then error_details' l @ [RowError row_num errs (get row ''sku'')]
                       else error_details' l) \<rparr>)
      in l1\<lparr> processed_rows := processed_rows l1 + 1 \<rparr>)"

text \<open>Lines 173 to 177: upsert the batch once it has reached the chunk size.\<close>

definition flush_batch :: "settings \<Rightarrow> locals \<Rightarrow> world \<Rightarrow> (py_error \<times> world) + (locals \<times> world)" where
  "flush_batch cfg l w =
     (if int (length (batch l)) \<ge> CHUNK_SIZE cfg then
        (case upsert_products (products w) (batch l) of
           Inl e \<Rightarrow> Inl (StoreError e, w)
         | Inr (table', created_n, updated_n) \<Rightarrow>
             Inr (l\<lparr> created_count := created_count l + created_n,
                      updated_count := updated_count l + updated_n,
                      batch := [] \<rparr>,
                  w\<lparr> products := table', log := log w @ [Upserted (length (batch l))] \<rparr>))
      else Inr (l, w))"

text \<open>Lines 180 to 199: every \<^verbatim>\<open>PROGRESS_UPDATE_INTERVAL\<close> rows, store the counters
  with status \<^verbatim>\<open>importing\<close> and publish a snapshot.\<close>

definition publish_progress :: "settings \<Rightarrow> int \<Rightarrow> locals \<Rightarrow> world \<Rightarrow> (py_error \<times> world) + (locals \<times> world)" where
  "publish_progress cfg tot l w =
     (if PROGRESS_UPDATE_INTERVAL cfg = 0 then Inl (ZeroDivisionError, w)
      else if processed_rows l mod PROGRESS_UPDATE_INTERVAL cfg = 0 then
        (let w1 = w\<lparr> job := (job w)\<lparr> processed_rows := processed_rows l,
                                      success_count := success_count l,
                                      error_count := error_count l,
                                      created_count := created_count l,
                                      updated_count := updated_count l,
                                      status := Importing \<rparr>,
                      log := log w @ [StatusSet Importing] \<rparr>
         in case snapshot_percentage (processed_rows l) tot of
              Inl e \<Rightarrow> Inl (e, w1)
            | Inr pct \<Rightarrow> Inr (l, w1\<lparr> log := log w1 @ [Published (snapshot_of Importing tot l (Some pct))] \<rparr>))
      else Inr (l, w))"

definition process_row :: "settings \<Rightarrow> int \<Rightarrow> int \<Rightarrow> csv_row \<Rightarrow> locals \<Rightarrow> world \<Rightarrow> (py_error \<times> world) + (locals \<times> world)" where
  "process_row cfg tot row_num row l w =
     (case flush_batch cfg (account_row row row_num l) w of
        Inl e \<Rightarrow> Inl e
      | Inr (l', w') \<Rightarrow> publish_progress cfg tot l' w')"

text \<open>The loop \<^verbatim>\<open>for row_num, row in enumerate(reader, start=2)\<close>; an exception ends it.\<close>

fun process_rows :: "settings \<Rightarrow> int \<Rightarrow> int \<Rightarrow> csv_row list \<Rightarrow> locals \<Rightarrow> world \<Rightarrow> (py_error \<times> world) + (locals \<times> world)" where
  "process_rows cfg tot row_num [] l w = Inr (l, w)"
| "process_rows cfg tot row_num (row # rest) l w =
     (case process_row cfg tot row_num row l w of
        Inl e \<Rightarrow> Inl e
      | Inr (l', w') \<Rightarrow> process_rows cfg tot (row_num + 1) rest l' w')"

subsection \<open>The task\<close>

definition initial_locals :: locals where
  "initial_locals = \<lparr> processed_rows = 0, success_count = 0, error_count = 0, created_count = 0,
                       updated_count = 0, error_details' = [], batch = [] \<rparr>"

text \<open>Lines 201 to 205: the remaining partial batch.\<close>

definition flush_remaining :: "locals \<Rightarrow> world \<Rightarrow> (py_error \<times> world) + (locals \<times> world)" where
  "flush_remaining l w =
     (if batch l \<noteq> [] then
        (case upsert_products (products w) (batch l) of
           Inl e \<Rightarrow> Inl (StoreError e, w)
         | Inr (table', created_n, updated_n) \<Rightarrow>
             Inr (l\<lparr> created_count := created_count l + created_n,
                      updated_count := updated_count l + updated_n \<rparr>,
                  w\<lparr> products := table', log := log w @ [Upserted (length (batch l))] \<rparr>))
      else Inr (l, w))"

text \<open>Lines 207 to 229: mark the job completed and publish the final snapshot.\<close>

definition mark_completed :: "int \<Rightarrow> locals \<Rightarrow> world \<Rightarrow> world" where
  "mark_completed tot l w =
     w\<lparr> job := (job w)\<lparr> processed_rows := processed_rows l,
                         success_count := success_count l,
                         error_count := error_count l,
                         created_count := created_count l,
                         updated_count := updated_count l,
                         status := Completed,
                         error_details := (if error_details' l \<noteq> [] then Some (error_details' l) else None) \<rparr>,
         log := log w @ [StatusSet Completed, Published (snapshot_of Completed tot l (Some 100))] \<rparr>"

text \<open>Lines 255 to 276: the handler of \<^verbatim>\<open>except Exception\<close>.\<close>

definition mark_failed :: "py_error \<Rightarrow> world \<Rightarrow> world" where
  "mark_failed e w =
     (let j = (job w)\<lparr> status := Failed, error_details := Some [Message e] \<rparr>
      in w\<lparr> job := j,
            log := log w @ [StatusSet Failed,
                            Published (Failure e (processed_rows j) (total_rows j) (success_count j) (error_count j))] \<rparr>)"

text \<open>Lines 110 to 253, the body of \<^verbatim>\<open>try\<close>.\<close>

definition try_body :: "settings \<Rightarrow> csv_file \<Rightarrow> world \<Rightarrow> (py_error \<times> world) + (locals \<times> world)" where
  "try_body cfg f w =
     (let w1 = w\<lparr> job := (job w)\<lparr> status := Parsing \<rparr>,
                   log := log w @ [StatusSet Parsing, Published (snapshot_of Parsing 0 initial_locals None)] \<rparr>;
          tot = count_csv_rows f;
          w2 = w1\<lparr> job := (job w1)\<lparr> total_rows := tot \<rparr>,
                    log := log w1 @ [Published (snapshot_of Validating tot initial_locals None)] \<rparr>
      in case process_rows cfg tot 2 (reader_rows f) initial_locals w2 of
           Inl e \<Rightarrow> Inl e
         | Inr (l, w3) \<Rightarrow>
             (case flush_remaining l w3 of
                Inl e \<Rightarrow> Inl e
              | Inr (l', w4) \<Rightarrow> Inr (l', mark_completed tot l' w4)))"

datatype task_result = JobNotFound | Raised py_error world | Returned counters world

definition import_csv_task :: "settings \<Rightarrow> csv_file \<Rightarrow> import_job option \<Rightarrow> product list \<Rightarrow> task_result" where
  "import_csv_task cfg f found table =
     (case found of
        None \<Rightarrow> JobNotFound
      | Some import_job \<Rightarrow>
          (case try_body cfg f \<lparr> job = import_job, products = table, log = [] \<rparr> of
             Inl (e, w) \<Rightarrow> Raised e (mark_failed e w)
           | Inr (l, w) \<Rightarrow>
               Returned \<lparr> processed_rows = processed_rows l, success_count = success_count l,
                          error_count = error_count l, created_count = created_count l,
                          updated_count = updated_count l \<rparr> w))"

text \<open>The job row as the upload endpoint creates it.\<close>

definition new_job :: import_job where
  "new_job = \<lparr> processed_rows = 0, success_count = 0, error_count = 0, created_count = 0,
               updated_count = 0, status = Pending, total_rows = 0, error_details = None \<rparr>"

section \<open>Webhook dispatcher: \<^verbatim>\<open>send_webhook\<close>\<close>

subsection \<open>HMAC-SHA256\<close>

text \<open>
  \<^verbatim>\<open>hmac.new(key, msg, hashlib.sha256).hexdigest()\<close>, written out from the two
  standards the library implements: SHA-256 of FIPS 180-4 over 32-bit words and the
  HMAC construction of RFC 2104 with a block of 64 bytes.
\<close>

type_synonym byte = "8 word"

text \<open>The round constants, eight to a row.\<close>

definition K256 :: "32 word list" where
  "K256 = concat
     [[0x428a2f98, 0x71374491, 0xb5c0fbcf, 0xe9b5dba5, 0x3956c25b, 0x59f111f1, 0x923f82a4, 0xab1c5ed5],
      [0xd807aa98, 0x12835b01, 0x243185be, 0x550c7dc3, 0x72be5d74, 0x80deb1fe, 0x9bdc06a7, 0xc19bf174],
      [0xe49b69c1, 0xefbe4786, 0x0fc19dc6, 0x240ca1cc, 0x2de92c6f, 0x4a7484aa, 0x5cb0a9dc, 0x76f988da],
      [0x983e5152, 0xa831c66d, 0xb00327c8, 0xbf597fc7, 0xc6e00bf3, 0xd5a79147, 0x06ca6351, 0x14292967],
      [0x27b70a85, 0x2e1b2138, 0x4d2c6dfc, 0x53380d13, 0x650a7354, 0x766a0abb, 0x81c2c92e, 0x92722c85],
      [0xa2bfe8a1, 0xa81a664b, 0xc24b8b70, 0xc76c51a3, 0xd192e819, 0xd6990624, 0xf40e3585, 0x106aa070],
      [0x19a4c116, 0x1e376c08, 0x2748774c, 0x34b0bcb5, 0x391c0cb3, 0x4ed8aa4a, 0x5b9cca4f, 0x682e6ff3],
      [0x748f82ee, 0x78a5636f, 0x84c87814, 0x8cc70208, 0x90befffa, 0xa4506ceb, 0xbef9a3f7, 0xc67178f2]]"

definition H256 :: "32 word list" where
  "H256 = [0x6a09e667, 0xbb67ae85, 0x3c6ef372, 0xa54ff53a, 0x510e527f, 0x9b05688c, 0x1f83d9ab, 0x5be0cd19]"

definition rotr :: "nat \<Rightarrow> 32 word \<Rightarrow> 32 word" where
  "rotr n x = word_rotr n x"

definition Ch :: "32 word \<Rightarrow> 32 word \<Rightarrow> 32 word \<Rightarrow> 32 word" where
  "Ch x y z = (x AND y) XOR (NOT x AND z)"

definition Maj :: "32 word \<Rightarrow> 32 word \<Rightarrow> 32 word \<Rightarrow> 32 word" where
  "Maj x y z = (x AND y) XOR (x AND z) XOR (y AND z)"

definition bsig0 :: "32 word \<Rightarrow> 32 word" where
  "bsig0 x = rotr 2 x XOR rotr 13 x XOR rotr 22 x"

definition bsig1 :: "32 word \<Rightarrow> 32 word" where
  "bsig1 x = rotr 6 x XOR rotr 11 x XOR rotr 25 x"

definition ssig0 :: "32 word \<Rightarrow> 32 word" where
  "ssig0 x = rotr 7 x XOR rotr 18 x XOR drop_bit 3 x"

definition ssig1 :: "32 word \<Rightarrow> 32 word" where
  "ssig1 x = rotr 17 x XOR rotr 19 x XOR drop_bit 10 x"

definition be_word :: "byte list \<Rightarrow> 32 word" where
  "be_word bs = foldl (\<lambda>a b. push_bit 8 a OR ucast b) 0 bs"

definition be_bytes :: "32 word \<Rightarrow> byte list" where
  "be_bytes x = [ucast (drop_bit 24 x), ucast (drop_bit 16 x), ucast (drop_bit 8 x), ucast x]"

definition be64_bytes :: "64 word \<Rightarrow> byte list" where
  "be64_bytes n = map (\<lambda>i. ucast (drop_bit (8 * (7 - i)) n)) [0, 1, 2, 3, 4, 5, 6, 7]"

definition pad :: "byte list \<Rightarrow> byte list" where
  "pad msg = msg @ [0x80] @ replicate ((119 - length msg mod 64) mod 64) 0 @ be64_bytes (of_nat (8 * length msg))"

fun chunks :: "nat \<Rightarrow> 'a list \<Rightarrow> 'a list list" where
  "chunks 0 xs = []"
| "chunks (Suc n) xs = take 64 xs # chunks n (drop 64 xs)"

fun words_of :: "nat \<Rightarrow> byte list \<Rightarrow> 32 word list" where
  "words_of 0 bs = []"
| "words_of (Suc n) bs = be_word (take 4 bs) # words_of n (drop 4 bs)"

fun extend :: "nat \<Rightarrow> 32 word list \<Rightarrow> 32 word list" where
  "extend 0 w = w"
| "extend (Suc n) w =
     (let l = length w
      in extend n (w @ [ssig1 (w ! (l - 2)) + w ! (l - 7) + ssig0 (w ! (l - 15)) + w ! (l - 16)]))"

fun round256 :: "32 word list \<Rightarrow> 32 word \<times> 32 word \<Rightarrow> 32 word list" where
  "round256 [a, b, c, d, e, f, g, h] (k, w) =
     (let t1 = h + bsig1 e + Ch e f g + k + w;
          t2 = bsig0 a + Maj a b c
      in [t1 + t2, a, b, c, d + t1, e, f, g])"
| "round256 st kw = st"

definition compress :: "32 word list \<Rightarrow> byte list \<Rightarrow> 32 word list" where
  "compress hs block = map2 (+) hs (foldl round256 hs (zip K256 (extend 48 (words_of 16 block))))"

definition sha256 :: "byte list \<Rightarrow> byte list" where
  "sha256 msg = (let p = pad msg in concat (map be_bytes (foldl compress H256 (chunks (length p div 64) p))))"

definition hmac_sha256 :: "byte list \<Rightarrow> byte list \<Rightarrow> byte list" where
  "hmac_sha256 key msg =
     (let k0 = (if length key > 64 then sha256 key else key);
          k = k0 @ replicate (64 - length k0) 0
      in sha256 (map (\<lambda>b. b XOR 0x5c) k @ sha256 (map (\<lambda>b. b XOR 0x36) k @ msg)))"

definition hex_digit :: "nat \<Rightarrow> char" where
  "hex_digit n = (if n < 10 then char_of (48 + n) else char_of (87 + n))"

definition hexdigest :: "byte list \<Rightarrow> string" where
  "hexdigest bs = concat (map (\<lambda>b. [hex_digit (unat b div 16), hex_digit (unat b mod 16)]) bs)"

text \<open>\<^verbatim>\<open>str.encode("utf-8")\<close> on ASCII text.\<close>

definition encode_utf8 :: "string \<Rightarrow> byte list" where
  "encode_utf8 s = map (\<lambda>c. of_nat (of_char c)) s"

definition generate_signature :: "string \<Rightarrow> string \<Rightarrow> string" where
  "generate_signature payload secret_key = hexdigest (hmac_sha256 (encode_utf8 secret_key) (encode_utf8 payload))"

subsection \<open>One execution of the task\<close>

text \<open>The columns of a webhook row that the dispatcher reads or writes (the two
  time columns are left out).\<close>

record webhook =
  url :: string
  event_type :: string
  is_enabled :: bool
  secret :: "string option"
  last_response_code :: "int option"
  failure_count :: int

record request =
  target :: string
  content :: string
  headers :: "(string \<times> string) list"

text \<open>What \<^verbatim>\<open>client.post\<close> ends with: a response with its status code, one of the two
  exceptions the task handles, or any other exception.\<close>

datatype http_outcome = Response int | TimeoutException | RequestError | OtherException

text \<open>
  The surroundings of an execution: \<open>dumps event timestamp data\<close> is
  \<^verbatim>\<open>json.dumps\<close> of the envelope, \<open>utcnow k\<close> is the \<open>k\<close>-th reading of the clock, and
  \<open>post k\<close> is the answer of the target to the request of execution \<open>k\<close>.
\<close>

record 'p env =
  dumps :: "string \<Rightarrow> string \<Rightarrow> 'p \<Rightarrow> string"
  utcnow :: "nat \<Rightarrow> string"
  post :: "nat \<Rightarrow> request \<Rightarrow> http_outcome"

text \<open>Lines 41 to 59: body and headers.\<close>

definition build_request :: "'p env \<Rightarrow> nat \<Rightarrow> webhook \<Rightarrow> string \<Rightarrow> 'p \<Rightarrow> request" where
  "build_request en k wh event payload =
     (let payload_json = dumps en event (utcnow en (2 * k)) payload;
          hdrs = [(''Content-Type'', ''application/json''),
                  (''X-Webhook-Event'', event),
                  (''X-Webhook-Timestamp'', utcnow en (2 * k + 1))];
          hdrs = (case secret wh of
                    None \<Rightarrow> hdrs
                  | Some s \<Rightarrow>
                      if s \<noteq> [] then hdrs @ [(''X-Webhook-Signature'', ''sha256='' @ generate_signature payload_json s)]
                      else hdrs)
      in \<lparr> target = url wh, content = payload_json, headers = hdrs \<rparr>)"

text \<open>
  How an execution ends. \<^verbatim>\<open>self.retry\<close> of the task queue, for a task declared with
  \<^verbatim>\<open>max_retries=3\<close>: it asks for a new execution after the countdown unless the
  executions already retried number \<open>max_retries\<close>, in which case the exception it was
  given is raised for good.
\<close>

datatype delivery =
    WebhookNotFound
  | Skipped
  | Sent bool int
  | RetryRequested nat
  | RetriesExhausted
  | Propagated

definition max_retries :: nat where
  "max_retries = 3"

definition retry :: "nat \<Rightarrow> nat \<Rightarrow> delivery" where
  "retry retries countdown = (if retries + 1 > max_retries then RetriesExhausted else RetryRequested countdown)"

definition send_webhook :: "'p env \<Rightarrow> nat \<Rightarrow> webhook option \<Rightarrow> string \<Rightarrow> 'p \<Rightarrow> webhook option \<times> delivery" where
  "send_webhook en retries found event payload =
     (case found of
        None \<Rightarrow> (None, WebhookNotFound)
      | Some wh \<Rightarrow>
          if \<not> is_enabled wh then (Some wh, Skipped)
          else
            (case post en retries (build_request en retries wh event payload) of
               Response status_code \<Rightarrow>
                 (let wh1 = wh\<lparr> last_response_code := Some status_code \<rparr>
                  in if status_code \<ge> 400 then
                       (let wh2 = wh1\<lparr> failure_count := failure_count wh1 + 1 \<rparr>
                        in if status_code \<ge> 500 then (Some wh2, retry retries (60 * (retries + 1)))
                           else (Some wh2, Sent (status_code < 400) status_code))
                     else (Some (wh1\<lparr> failure_count := 0 \<rparr>), Sent (status_code < 400) status_code))
             | TimeoutException \<Rightarrow>
                 (Some (wh\<lparr> failure_count := failure_count wh + 1 \<rparr>), retry retries (60 * (retries + 1)))
             | RequestError \<Rightarrow>
                 (Some (wh\<lparr> failure_count := failure_count wh + 1 \<rparr>), retry retries (60 * (retries + 1)))
             | OtherException \<Rightarrow> (Some wh, Propagated)))"

subsection \<open>The queue re-executing the task\<close>

text \<open>
  A delivery is the first execution (\<^verbatim>\<open>request.retries = 0\<close>) and every execution the
  queue starts because the one before asked for a retry, each reading the webhook row
  the one before left. The result is the row, the countdowns asked for (seconds, in
  order), and how the last execution ended; the executions number one more than the
  countdowns.
\<close>

function deliver :: "'p env \<Rightarrow> nat \<Rightarrow> webhook option \<Rightarrow> string \<Rightarrow> 'p \<Rightarrow> webhook option \<times> nat list \<times> delivery" where
  "deliver en retries found event payload =
     (case send_webhook en retries found event payload of
        (found', res) \<Rightarrow>
          (case res of
             RetryRequested countdown \<Rightarrow>
               (if retries < max_retries
                then (case deliver en (retries + 1) found' event payload of
                        (w, delays, r) \<Rightarrow> (w, countdown # delays, r))
                else (found', [], res))
           | _ \<Rightarrow> (found', [], res)))"
  by pat_completeness auto
termination
  by (relation "measure (\<lambda>(en, retries, found, event, payload). max_retries - retries)") auto

declare deliver.simps [simp del]

definition attempts :: "webhook option \<times> nat list \<times> delivery \<Rightarrow> nat" where
  "attempts d = Suc (length (fst (snd d)))"

section \<open>Product endpoints\<close>

datatype http_error = HTTP_400 | HTTP_404 | HTTP_422

text \<open>The validator of \<^verbatim>\<open>ProductCreate.sku\<close>.\<close>

definition sku_must_be_valid :: "string \<Rightarrow> string" where
  "sku_must_be_valid v = upper (strip v)"

definition price_ok :: "decimal option \<Rightarrow> bool" where
  "price_ok p = (case p of None \<Rightarrow> True | Some (Finite neg c e) \<Rightarrow> \<not> (neg \<and> c \<noteq> 0) | Some _ \<Rightarrow> False)"

text \<open>The schema \<^verbatim>\<open>ProductCreate\<close>: the field constraints, then the validator of the
  SKU. \<open>None\<close> is the rejection of the request.\<close>

definition ProductCreate :: "product_data \<Rightarrow> product_data option" where
  "ProductCreate raw =
     (if 1 \<le> length (sku raw) \<and> length (sku raw) \<le> 100
         \<and> 1 \<le> length (name raw) \<and> length (name raw) \<le> 255
         \<and> price_ok (price raw) \<and> 0 \<le> quantity raw
      then Some (raw\<lparr> sku := sku_must_be_valid (sku raw) \<rparr>)
      else None)"

definition create_product :: "product_data \<Rightarrow> product list \<Rightarrow> http_error + product list" where
  "create_product product_data table =
     (if \<exists>r \<in> set table. lower (sku r) = lower (sku product_data) then Inl HTTP_400
      else Inr (table @ [new_row table (product_data\<lparr> sku := upper (sku product_data) \<rparr>)]))"

text \<open>
  The schema \<^verbatim>\<open>ProductUpdate\<close> has the five fields below and no SKU; a field is
  either absent from the request (\<open>None\<close>) or carries the value to store.
\<close>

record product_update =
  set_name :: "string option"
  set_description :: "string option option"
  set_price :: "decimal option option"
  set_quantity :: "int option"
  set_is_active :: "bool option"

definition apply_update :: "product_update \<Rightarrow> product \<Rightarrow> product" where
  "apply_update u r =
     r\<lparr> name := (case set_name u of None \<Rightarrow> name r | Some v \<Rightarrow> v),
        description := (case set_description u of None \<Rightarrow> description r | Some v \<Rightarrow> v),
        price := (case set_price u of None \<Rightarrow> price r | Some v \<Rightarrow> v),
        quantity := (case set_quantity u of None \<Rightarrow> quantity r | Some v \<Rightarrow> v),
        is_active := (case set_is_active u of None \<Rightarrow> is_active r | Some v \<Rightarrow> v) \<rparr>"

definition update_product :: "nat \<Rightarrow> product_update \<Rightarrow> product list \<Rightarrow> http_error + product list" where
  "update_product product_id u table =
     (if \<exists>r \<in> set table. id' r = product_id
      then Inr (map (\<lambda>r. if id' r = product_id then apply_update u r else r) table)
      else Inl HTTP_404)"

definition delete_product :: "nat \<Rightarrow> product list \<Rightarrow> http_error + product list" where
  "delete_product product_id table =
     (if \<exists>r \<in> set table. id' r = product_id
      then Inr (filter (\<lambda>r. id' r \<noteq> product_id) table)
      else Inl HTTP_404)"

text \<open>
  The tables that the write paths can produce from the empty table: creating,
  updating and deleting through the endpoints, and running an import, whether it
  completes or fails.
\<close>

inductive reachable :: "product list \<Rightarrow> bool" where
  empty: "reachable []"
| created: "reachable t \<Longrightarrow> ProductCreate raw = Some d \<Longrightarrow> create_product d t = Inr t' \<Longrightarrow> reachable t'"
| updated: "reachable t \<Longrightarrow> update_product i u t = Inr t' \<Longrightarrow> reachable t'"
| deleted: "reachable t \<Longrightarrow> delete_product i t = Inr t' \<Longrightarrow> reachable t'"
| deleted_all: "reachable t \<Longrightarrow> reachable []"
| imported: "reachable t \<Longrightarrow> import_csv_task cfg f (Some j) t = Returned c w \<Longrightarrow> reachable (products w)"
| import_failed: "reachable t \<Longrightarrow> import_csv_task cfg f (Some j) t = Raised e w \<Longrightarrow> reachable (products w)"

section \<open>Auxiliary notions for the properties\<close>

text \<open>The accounting of the streaming pass: every processed row is a success or an
  error, and every success is created, updated or still waiting in the batch.\<close>

definition counted :: "locals \<Rightarrow> bool" where
  "counted l \<longleftrightarrow>
     success_count l + error_count l = processed_rows l
     \<and> created_count l + updated_count l + int (length (batch l)) = success_count l"

text \<open>An upload of zero bytes: no line, and the reader yields nothing.\<close>

definition empty_file :: csv_file where
  "empty_file = \<lparr> physical_lines = [], reader_rows = [] \<rparr>"

text \<open>A header, one record and a blank last line: three lines, and the reader, which
  skips blank lines, yields the one record.\<close>

definition blank_line_file :: csv_file where
  "blank_line_file =
     \<lparr> physical_lines = [''sku,name'', ''A1,Widget'', ''''],
       reader_rows = [[''sku'' \<mapsto> ''A1'', ''name'' \<mapsto> ''Widget'']] \<rparr>"

text \<open>The outcomes of a request after which the dispatcher asks for a retry: a status
  code of 500 or above, a timeout, a network error.\<close>

fun retryable :: "http_outcome \<Rightarrow> bool" where
  "retryable (Response status_code) = (status_code \<ge> 500)"
| "retryable TimeoutException = True"
| "retryable RequestError = True"
| "retryable OtherException = False"

text \<open>Sample surroundings: a serializer that writes the three parts between braces, a
  clock that stands still, and a target that answers execution \<open>k\<close> with
  \<open>answers k\<close>; a target that always answers 503, and one that answers 503 three times
  and 200 from then on.\<close>

definition sample_env :: "(nat \<Rightarrow> http_outcome) \<Rightarrow> string env" where
  "sample_env answers =
     \<lparr> dumps = (\<lambda>event timestamp d. ''{'' @ event @ '','' @ timestamp @ '','' @ d @ ''}''),
       utcnow = (\<lambda>k. ''2024-01-01T00:00:00''),
       post = (\<lambda>k r. answers k) \<rparr>"

definition always_503 :: "string env" where
  "always_503 = sample_env (\<lambda>k. Response 503)"

definition thrice_503_then_200 :: "string env" where
  "thrice_503_then_200 = sample_env (\<lambda>k. if k < 3 then Response 503 else Response 200)"

definition sample_webhook :: webhook where
  "sample_webhook =
     \<lparr> url = ''https://example.com/hook'', event_type = ''import.completed'', is_enabled = True,
       secret = None, last_response_code = None, failure_count = 2 \<rparr>"

definition always_404 :: "string env" where
  "always_404 = sample_env (\<lambda>k. Response 404)"

text \<open>Surroundings whose serializer returns the data as it is, and a webhook with
  the secret x.\<close>

definition echo_env :: "string env" where
  "echo_env = \<lparr> dumps = (\<lambda>event timestamp d. d), utcnow = (\<lambda>k. ''2024-01-01T00:00:00''),
                post = (\<lambda>k r. Response 200) \<rparr>"

definition signed_webhook :: webhook where
  "signed_webhook = sample_webhook\<lparr> secret := Some ''x'' \<rparr>"

text \<open>Two sample batches with the SKU A1 in common.\<close>

definition sample_record :: "string \<Rightarrow> string \<Rightarrow> int \<Rightarrow> product_data" where
  "sample_record s n q =
     \<lparr> sku = s, name = n, description = None, price = Some (Finite False 1999 (- 2)),
       quantity = q, is_active = True \<rparr>"



definition sample_row :: "string \<Rightarrow> string \<Rightarrow> int \<Rightarrow> nat \<Rightarrow> product" where
  "sample_row s n q i =
     \<lparr> sku = s, name = n, description = None, price = Some (Finite False 1999 (- 2)),
       quantity = q, is_active = True, id' = i \<rparr>"

text \<open>What the write paths keep: every stored SKU is in upper case and no SKU is stored
  twice; and, of the streaming pass, that the waiting batch holds upper-case SKUs.\<close>

definition store_ok :: "product list \<Rightarrow> bool" where
  "store_ok t \<longleftrightarrow> list_all (\<lambda>r. upper (sku r) = sku r) t \<and> distinct (map sku t)"

definition batch_ok :: "locals \<Rightarrow> bool" where
  "batch_ok l \<longleftrightarrow> list_all (\<lambda>p. upper (sku p) = sku p) (batch l)"

text \<open>A creation request with a SKU in lower case and surrounded by blanks.\<close>

definition sample_request :: product_data where
  "sample_request = sample_record '' ab-1 '' ''Widget'' 3"

text \<open>Reading the log: the statuses assigned to the job row, the statuses of the
  published snapshots, and the sizes of the upserted batches, each in order.\<close>

fun job_statuses :: "event list \<Rightarrow> job_status list" where
  "job_statuses [] = []"
| "job_statuses (StatusSet s # evs) = s # job_statuses evs"
| "job_statuses (ev # evs) = job_statuses evs"

fun snapshot_status :: "snapshot \<Rightarrow> job_status" where
  "snapshot_status (Progress p pct) = status p"
| "snapshot_status (Failure e a b c d) = Failed"

fun published_statuses :: "event list \<Rightarrow> job_status list" where
  "published_statuses [] = []"
| "published_statuses (Published s # evs) = snapshot_status s # published_statuses evs"
| "published_statuses (ev # evs) = published_statuses evs"

fun upserts :: "event list \<Rightarrow> nat list" where
  "upserts [] = []"
| "upserts (Upserted n # evs) = n # upserts evs"
| "upserts (ev # evs) = upserts evs"













section \<open>Properties of the row validator\<close>

lemma parse_csv_row_invalid:
  "field_errors row \<noteq> [] \<Longrightarrow> parse_csv_row row n = Invalid (field_errors row) n"
  unfolding parse_csv_row_def field_errors_def sku_errors_def name_errors_def price_errors_def quantity_errors_def
  by (auto simp: Let_def split: option.splits bool.splits if_splits)

lemma parse_csv_row_valid:
  "field_errors row = [] \<Longrightarrow>
     parse_csv_row row n =
       Valid \<lparr> sku = upper (strip (get row ''sku'')), name = strip (get row ''name''),
               description = (if strip (get row ''description'') = [] then None else Some (strip (get row ''description''))),
               price = (if strip (get row ''price'') = [] then None else Decimal (strip (get row ''price''))),
               quantity = (if strip (get row ''quantity'') = [] then 0 else the (py_int (strip (get row ''quantity'')))),
               is_active = True \<rparr>"
  unfolding parse_csv_row_def field_errors_def sku_errors_def name_errors_def price_errors_def quantity_errors_def
  by (auto simp: Let_def split: option.splits bool.splits if_splits)






section \<open>Properties of the import task\<close>

subsection \<open>The job's total_rows is written once\<close>

lemma flush_batch_total_rows:
  "flush_batch cfg l w = Inr (l', w') \<Longrightarrow> total_rows (job w') = total_rows (job w)"
  "flush_batch cfg l w = Inl (e, w') \<Longrightarrow> total_rows (job w') = total_rows (job w)"
  by (auto simp: flush_batch_def split: if_splits sum.splits prod.splits)

lemma publish_progress_total_rows:
  "publish_progress cfg tot l w = Inr (l', w') \<Longrightarrow> total_rows (job w') = total_rows (job w)"
  "publish_progress cfg tot l w = Inl (e, w') \<Longrightarrow> total_rows (job w') = total_rows (job w)"
  by (auto simp: publish_progress_def Let_def split: if_splits sum.splits)

lemma process_row_total_rows:
  "process_row cfg tot n row l w = Inr (l', w') \<Longrightarrow> total_rows (job w') = total_rows (job w)"
  "process_row cfg tot n row l w = Inl (e, w') \<Longrightarrow> total_rows (job w') = total_rows (job w)"
  by (auto simp: process_row_def split: sum.splits prod.splits)
    (metis flush_batch_total_rows publish_progress_total_rows)+

lemma process_rows_total_rows:
  "process_rows cfg tot n rows l w = Inr (l', w') \<Longrightarrow> total_rows (job w') = total_rows (job w)"
  "process_rows cfg tot n rows l w = Inl (e, w') \<Longrightarrow> total_rows (job w') = total_rows (job w)"
proof (induction rows arbitrary: n l w)
  case Nil
  { case 1 then show ?case by simp }
  { case 2 then show ?case by simp }
next
  case (Cons row rest)
  { case 1 then show ?case
      by (auto split: sum.splits prod.splits) (metis process_row_total_rows(1) Cons.IH(1)) }
  { case 2 then show ?case
      by (auto split: sum.splits prod.splits dest: process_row_total_rows(2))
         (metis process_row_total_rows(1) Cons.IH(2)) }
qed

lemma flush_remaining_total_rows:
  "flush_remaining l w = Inr (l', w') \<Longrightarrow> total_rows (job w') = total_rows (job w)"
  "flush_remaining l w = Inl (e, w') \<Longrightarrow> total_rows (job w') = total_rows (job w)"
  by (auto simp: flush_remaining_def split: if_splits sum.splits prod.splits)

lemma try_body_total_rows:
  "try_body cfg f w = Inr (l', w') \<Longrightarrow> total_rows (job w') = count_csv_rows f"
  "try_body cfg f w = Inl (e, w') \<Longrightarrow> total_rows (job w') = count_csv_rows f"
  by (auto simp: try_body_def Let_def mark_completed_def split: sum.splits prod.splits
      dest!: process_rows_total_rows flush_remaining_total_rows)

lemma import_csv_task_total_rows:
  "import_csv_task cfg f (Some j) t = Returned c w \<Longrightarrow> total_rows (job w) = count_csv_rows f"
  "import_csv_task cfg f (Some j) t = Raised e w \<Longrightarrow> total_rows (job w) = count_csv_rows f"
  by (auto simp: import_csv_task_def mark_failed_def Let_def split: sum.splits prod.splits
      dest!: try_body_total_rows)

lemma import_empty_file:
  "import_csv_task default_settings empty_file (Some new_job) [] =
     Returned \<lparr> processed_rows = 0, success_count = 0, error_count = 0, created_count = 0, updated_count = 0 \<rparr>
       \<lparr> job = new_job\<lparr> status := Completed, total_rows := - 1 \<rparr>,
         products = [],
         log = [StatusSet Parsing, Published (snapshot_of Parsing 0 initial_locals None),
                Published (snapshot_of Validating (- 1) initial_locals None),
                StatusSet Completed, Published (snapshot_of Completed (- 1) initial_locals (Some 100))] \<rparr>"
  by (simp add: import_csv_task_def try_body_def empty_file_def count_csv_rows_def Let_def
      flush_remaining_def initial_locals_def mark_completed_def new_job_def snapshot_of_def)

text \<open>
  Claim C10. The counting pass returns the number of physical lines minus one, whatever
  the file: 0 for a file of the header line only, and - 1 for a file of no line at all.
  Whenever the task runs to its end, returning or raising, that number is what the job
  row holds as total_rows, negative for the empty file.
\<close>
theorem count_csv_rows_is_lines_minus_one:
  "count_csv_rows f = int (length (physical_lines f)) - 1
   \<and> (length (physical_lines f) = 1 \<longrightarrow> count_csv_rows f = 0)
   \<and> (physical_lines f = [] \<longrightarrow> count_csv_rows f = - 1)
   \<and> (\<forall>c w. import_csv_task cfg f (Some j) t = Returned c w
          \<longrightarrow> total_rows (job w) = int (length (physical_lines f)) - 1)
   \<and> (\<forall>e w. import_csv_task cfg f (Some j) t = Raised e w
          \<longrightarrow> total_rows (job w) = int (length (physical_lines f)) - 1)"
  using import_csv_task_total_rows [of cfg f j t]
  by (auto simp: count_csv_rows_def)

theorem count_csv_rows_is_lines_minus_one_witness:
  "physical_lines empty_file = []
   \<and> count_csv_rows empty_file = - 1
   \<and> (\<exists>c w. import_csv_task default_settings empty_file (Some new_job) [] = Returned c w
          \<and> total_rows (job w) = - 1)
   \<and> length (physical_lines \<lparr> physical_lines = [''sku,name''], reader_rows = [] \<rparr>) = 1
   \<and> count_csv_rows \<lparr> physical_lines = [''sku,name''], reader_rows = [] \<rparr> = 0"
  using count_csv_rows_is_lines_minus_one [of empty_file default_settings new_job "[]"]
    count_csv_rows_is_lines_minus_one [of "\<lparr> physical_lines = [''sku,name''], reader_rows = [] \<rparr>" default_settings new_job "[]"]
    import_empty_file
  by (simp add: empty_file_def)

subsection \<open>Counters of the streaming pass\<close>

lemma count_created_updated_sum:
  "count_created_updated ex ps (c, u) = (c', u') \<Longrightarrow> c' + u' = c + u + int (length ps)"
  by (induction ps arbitrary: c u) (auto split: if_splits)

lemma upsert_products_counts:
  "upsert_products t ps = Inr (t', c, u) \<Longrightarrow> c + u = int (length ps)"
  by (auto simp: upsert_products_def Let_def split: if_splits prod.splits sum.splits
      dest: count_created_updated_sum)

lemma counted_initial: "counted initial_locals"
  by (simp add: counted_def initial_locals_def)

lemma account_row_counted:
  "counted l \<Longrightarrow> counted (account_row row n l)"
  by (auto simp: counted_def account_row_def Let_def split: parsed.splits)

lemma account_row_processed:
  "processed_rows (account_row row n l) = processed_rows l + 1"
  by (auto simp: account_row_def Let_def split: parsed.splits)

lemma flush_batch_counted:
  "counted l \<Longrightarrow> flush_batch cfg l w = Inr (l', w') \<Longrightarrow> counted l' \<and> processed_rows l' = processed_rows l"
  by (auto simp: counted_def flush_batch_def split: if_splits sum.splits prod.splits
      dest: upsert_products_counts)

lemma publish_progress_locals:
  "publish_progress cfg tot l w = Inr (l', w') \<Longrightarrow> l' = l"
  by (auto simp: publish_progress_def Let_def split: if_splits sum.splits)

lemma process_row_counted:
  "counted l \<Longrightarrow> process_row cfg tot n row l w = Inr (l', w')
     \<Longrightarrow> counted l' \<and> processed_rows l' = processed_rows l + 1"
  by (auto simp: process_row_def split: sum.splits prod.splits
      dest!: publish_progress_locals dest: flush_batch_counted [OF account_row_counted]
      simp: account_row_processed)

lemma process_rows_counted:
  "counted l \<Longrightarrow> process_rows cfg tot n rows l w = Inr (l', w')
     \<Longrightarrow> counted l' \<and> processed_rows l' = processed_rows l + int (length rows)"
proof (induction rows arbitrary: n l w)
  case Nil
  then show ?case by simp
next
  case (Cons row rest)
  from Cons.prems(2) obtain l1 w1 where
    s: "process_row cfg tot n row l w = Inr (l1, w1)" and
    r: "process_rows cfg tot (n + 1) rest l1 w1 = Inr (l', w')"
    by (auto split: sum.splits prod.splits)
  from process_row_counted [OF Cons.prems(1) s] Cons.IH [OF _ r]
  show ?case by simp
qed

lemma flush_remaining_counted:
  "counted l \<Longrightarrow> flush_remaining l w = Inr (l', w')
     \<Longrightarrow> success_count l' + error_count l' = processed_rows l'
         \<and> created_count l' + updated_count l' = success_count l'
         \<and> processed_rows l' = processed_rows l"
  by (auto simp: counted_def flush_remaining_def split: if_splits sum.splits prod.splits
      dest: upsert_products_counts)

lemma try_body_completed:
  assumes "try_body cfg f w = Inr (l, w')"
  shows "status (job w') = Completed"
    and "processed_rows (job w') = processed_rows l" and "success_count (job w') = success_count l"
    and "error_count (job w') = error_count l" and "created_count (job w') = created_count l"
    and "updated_count (job w') = updated_count l"
  using assms
  by (auto simp: try_body_def Let_def mark_completed_def split: sum.splits prod.splits)

lemma try_body_counted:
  assumes "try_body cfg f w = Inr (l, w')"
  shows "success_count l + error_count l = processed_rows l
         \<and> created_count l + updated_count l = success_count l
         \<and> processed_rows l = int (length (reader_rows f))"
proof -
  from assms obtain l1 w1 w2 w4 where
    p: "process_rows cfg (count_csv_rows f) 2 (reader_rows f) initial_locals w2 = Inr (l1, w1)" and
    r: "flush_remaining l1 w1 = Inr (l, w4)"
    by (auto simp: try_body_def Let_def split: sum.splits prod.splits)
  from process_rows_counted [OF counted_initial p]
  have "counted l1" "processed_rows l1 = int (length (reader_rows f))"
    by (simp_all add: initial_locals_def)
  with flush_remaining_counted [OF _ r] show ?thesis by simp
qed

lemma completed_job_counters:
  assumes "import_csv_task cfg f (Some j) t = Returned c w"
  shows "status (job w) = Completed
         \<and> success_count (job w) + error_count (job w) = processed_rows (job w)
         \<and> created_count (job w) + updated_count (job w) = success_count (job w)
         \<and> processed_rows (job w) = int (length (reader_rows f))"
proof -
  from assms obtain l where b: "try_body cfg f \<lparr> job = j, products = t, log = [] \<rparr> = Inr (l, w)"
    by (auto simp: import_csv_task_def split: sum.splits prod.splits)
  from try_body_completed [OF b] try_body_counted [OF b] show ?thesis by simp
qed

text \<open>
  Claim C1, evaluated where it fails. For the empty upload the task returns with the job
  completed, total_rows - 1 and processed_rows 0; for the file whose last line is blank
  it returns with the job completed, total_rows 2 and processed_rows 1. The other two
  equations of the claim hold for every completed job (lemma
  \<open>completed_job_counters\<close>).
\<close>
theorem completed_job_total_rows_differs:
  "(case import_csv_task default_settings empty_file (Some new_job) [] of
      Returned c w \<Rightarrow> status (job w) = Completed \<and> total_rows (job w) = - 1 \<and> processed_rows (job w) = 0
    | _ \<Rightarrow> False)
   \<and> (case import_csv_task default_settings blank_line_file (Some new_job) [] of
      Returned c w \<Rightarrow> status (job w) = Completed \<and> total_rows (job w) = 2 \<and> processed_rows (job w) = 1
    | _ \<Rightarrow> False)"
  by code_simp

section \<open>Properties of the webhook dispatcher\<close>

lemma send_webhook_enabled_kept:
  "send_webhook en r (Some wh) event payload = (found', res)
     \<Longrightarrow> \<exists>wh'. found' = Some wh' \<and> is_enabled wh' = is_enabled wh"
  by (auto simp: send_webhook_def Let_def split: if_splits http_outcome.splits)

lemma send_webhook_retryable:
  "is_enabled wh \<Longrightarrow> retryable (post en r (build_request en r wh event payload))
     \<Longrightarrow> snd (send_webhook en r (Some wh) event payload)
           = (if r < 3 then RetryRequested (60 * (r + 1)) else RetriesExhausted)"
  by (auto simp: send_webhook_def Let_def retry_def max_retries_def split: http_outcome.splits)

lemma send_webhook_client_error:
  "is_enabled wh \<Longrightarrow> post en r (build_request en r wh event payload) = Response code
     \<Longrightarrow> 400 \<le> code \<Longrightarrow> code < 500
     \<Longrightarrow> snd (send_webhook en r (Some wh) event payload) = Sent False code"
  by (auto simp: send_webhook_def Let_def)

lemma deliver_delays_bound:
  "length (fst (snd (deliver en r found event payload))) \<le> max_retries - r"
proof (induction en r found event payload rule: deliver.induct)
  case (1 en retries found event payload)
  show ?case
  proof (cases "send_webhook en retries found event payload")
    case (Pair found' res)
    show ?thesis
    proof (cases "\<exists>c. res = RetryRequested c \<and> retries < max_retries")
      case True
      then obtain c where c: "res = RetryRequested c" "retries < max_retries" by blast
      from "1.IH" [OF Pair [symmetric] c(1) c(2)]
      have "length (fst (snd (deliver en (retries + 1) found' event payload))) \<le> max_retries - (retries + 1)" .
      with Pair c show ?thesis
        by (subst deliver.simps) (auto split: prod.splits)
    next
      case False
      with Pair show ?thesis
        by (subst deliver.simps) (auto split: delivery.splits)
    qed
  qed
qed

lemma deliver_retry_step:
  assumes "is_enabled wh" and "retryable (post en r (build_request en r wh event payload))"
    and "r < 3" and r': "r' = r + 1" and c: "c = 60 * r'"
  shows "\<exists>wh'. is_enabled wh' \<and>
           deliver en r (Some wh) event payload =
             (case deliver en r' (Some wh') event payload of
                (w, delays, res) \<Rightarrow> (w, c # delays, res))"
proof -
  obtain found' res where s: "send_webhook en r (Some wh) event payload = (found', res)"
    by (cases "send_webhook en r (Some wh) event payload")
  from send_webhook_enabled_kept [OF s] assms(1)
  obtain wh' where w: "found' = Some wh'" "is_enabled wh'" by auto
  from send_webhook_retryable [OF assms(1,2)] s assms(3)
  have r: "res = RetryRequested (60 * (r + 1))" by simp
  from s w r assms(3) r' c have
    "deliver en r (Some wh) event payload =
       (case deliver en r' (Some wh') event payload of
          (w, delays, res) \<Rightarrow> (w, c # delays, res))"
    by (subst deliver.simps) (simp add: max_retries_def)
  with w show ?thesis by blast
qed

lemma deliver_last_step:
  assumes "is_enabled wh" and "retryable (post en 3 (build_request en 3 wh event payload))"
  shows "snd (deliver en 3 (Some wh) event payload) = ([], RetriesExhausted)"
proof -
  obtain found' res where s: "send_webhook en 3 (Some wh) event payload = (found', res)"
    by (cases "send_webhook en 3 (Some wh) event payload")
  from send_webhook_retryable [OF assms] s have "res = RetriesExhausted" by simp
  with s show ?thesis
    by (subst deliver.simps) simp
qed

lemma deliver_all_retryable:
  assumes en: "is_enabled wh"
    and all: "\<And>k wh'. k \<le> 3 \<Longrightarrow> retryable (post en k (build_request en k wh' event payload))"
  shows "snd (deliver en 0 (Some wh) event payload) = ([60, 120, 180], RetriesExhausted)"
proof -
  from deliver_retry_step [OF en all, where r' = 1 and c = 60] obtain w1 where
    w1: "is_enabled w1" and
    d0: "deliver en 0 (Some wh) event payload =
          (case deliver en 1 (Some w1) event payload of (w, delays, res) \<Rightarrow> (w, 60 # delays, res))"
    by auto
  from deliver_retry_step [OF w1 all, where r' = 2 and c = 120] obtain w2 where
    w2: "is_enabled w2" and
    d1: "deliver en 1 (Some w1) event payload =
          (case deliver en 2 (Some w2) event payload of (w, delays, res) \<Rightarrow> (w, 120 # delays, res))"
    by auto
  from deliver_retry_step [OF w2 all, where r' = 3 and c = 180] obtain w3 where
    w3: "is_enabled w3" and
    d2: "deliver en 2 (Some w2) event payload =
          (case deliver en 3 (Some w3) event payload of (w, delays, res) \<Rightarrow> (w, 180 # delays, res))"
    by auto
  from deliver_last_step [OF w3 all] have
    d3: "snd (deliver en 3 (Some w3) event payload) = ([], RetriesExhausted)" by simp
  from d0 d1 d2 d3 show ?thesis
    by (auto split: prod.splits)
qed

lemma sample_post [simp]: "post (sample_env answers) k r = answers k"
  by (simp add: sample_env_def)

text \<open>
  Claim C4, amended. An execution whose request ends with a status code of 500 or above,
  a timeout or a network error asks for a retry after 60 s times (retries + 1) as long
  as fewer than three retries have been made, and gives up at the fourth execution; a
  code from 400 to 499 ends the delivery without a retry. A delivery therefore has at
  most four executions, and a target that fails all four leaves it exhausted after
  countdowns of 60, 120 and 180 seconds.
\<close>

theorem retry_backoff_three_retries:
  "(is_enabled wh \<and> retryable (post en r (build_request en r wh event payload)) \<longrightarrow>
      snd (send_webhook en r (Some wh) event payload)
        = (if r < 3 then RetryRequested (60 * (r + 1)) else RetriesExhausted))
   \<and> (is_enabled wh \<and> post en r (build_request en r wh event payload) = Response code
        \<and> 400 \<le> code \<and> code < 500 \<longrightarrow>
      snd (send_webhook en r (Some wh) event payload) = Sent False code)
   \<and> attempts (deliver en 0 found event payload) \<le> 4
   \<and> (is_enabled wh \<and> (\<forall>k wh'. k \<le> 3 \<longrightarrow> retryable (post en k (build_request en k wh' event payload))) \<longrightarrow>
      snd (deliver en 0 (Some wh) event payload) = ([60, 120, 180], RetriesExhausted))"
proof (intro conjI impI)
  assume "is_enabled wh \<and> retryable (post en r (build_request en r wh event payload))"
  then show "snd (send_webhook en r (Some wh) event payload)
        = (if r < 3 then RetryRequested (60 * (r + 1)) else RetriesExhausted)"
    by (simp add: send_webhook_retryable)
next
  assume "is_enabled wh \<and> post en r (build_request en r wh event payload) = Response code
        \<and> 400 \<le> code \<and> code < 500"
  then show "snd (send_webhook en r (Some wh) event payload) = Sent False code"
    by (simp add: send_webhook_client_error)
next
  from deliver_delays_bound [of en 0 found event payload]
  show "attempts (deliver en 0 found event payload) \<le> 4"
    by (simp add: attempts_def max_retries_def)
next
  assume "is_enabled wh \<and> (\<forall>k wh'. k \<le> 3 \<longrightarrow> retryable (post en k (build_request en k wh' event payload)))"
  then show "snd (deliver en 0 (Some wh) event payload) = ([60, 120, 180], RetriesExhausted)"
    by (intro deliver_all_retryable) auto
qed

theorem retry_backoff_three_retries_witness:
  "is_enabled sample_webhook
   \<and> retryable (post always_503 0 (build_request always_503 0 sample_webhook ''import.completed'' ''{}''))
   \<and> snd (send_webhook always_503 0 (Some sample_webhook) ''import.completed'' ''{}'') = RetryRequested 60
   \<and> post always_404 0 (build_request always_404 0 sample_webhook ''import.completed'' ''{}'') = Response 404
   \<and> snd (send_webhook always_404 0 (Some sample_webhook) ''import.completed'' ''{}'') = Sent False 404
   \<and> snd (deliver always_503 0 (Some sample_webhook) ''import.completed'' ''{}'') = ([60, 120, 180], RetriesExhausted)"
  using retry_backoff_three_retries [of sample_webhook always_503 0 "''import.completed''" "''{}''" 404 None]
    retry_backoff_three_retries [of sample_webhook always_404 0 "''import.completed''" "''{}''" 404 None]
  by (simp add: sample_webhook_def always_503_def always_404_def)

theorem three_failures_not_exhausted_counterexample:
  "attempts (deliver always_503 0 (Some sample_webhook) ''import.completed'' ''{}'') = 4
   \<and> deliver thrice_503_then_200 0 (Some sample_webhook) ''import.completed'' ''{}''
       = (Some (sample_webhook\<lparr> last_response_code := Some 200, failure_count := 0 \<rparr>),
          [60, 120, 180], Sent True 200)"
  by code_simp

text \<open>
  Claim C8. An execution that gets a response sets the failure count to zero when the
  status code is below 400 and adds one when it is 400 or above; a timeout or a
  network error adds one; every other way an execution can end (no such webhook, a
  disabled webhook, any other exception) leaves the count as it was.
\<close>

theorem failure_count_after_attempt:
  "send_webhook en r found event payload = (found', res) \<Longrightarrow>
     (case found of
        None \<Rightarrow> found' = None
      | Some wh \<Rightarrow>
          (\<exists>wh'. found' = Some wh' \<and>
             failure_count wh' =
               (if \<not> is_enabled wh then failure_count wh
                else (case post en r (build_request en r wh event payload) of
                        Response code \<Rightarrow> if code < 400 then 0 else failure_count wh + 1
                      | TimeoutException \<Rightarrow> failure_count wh + 1
                      | RequestError \<Rightarrow> failure_count wh + 1
                      | OtherException \<Rightarrow> failure_count wh))))"
  by (auto simp: send_webhook_def Let_def split: option.splits if_splits http_outcome.splits)

theorem failure_count_after_attempt_witness:
  "send_webhook always_503 0 (Some sample_webhook) ''import.completed'' ''{}''
     = (Some (sample_webhook\<lparr> last_response_code := Some 503, failure_count := 3 \<rparr>), RetryRequested 60)
   \<and> send_webhook thrice_503_then_200 3 (Some sample_webhook) ''import.completed'' ''{}''
     = (Some (sample_webhook\<lparr> last_response_code := Some 200, failure_count := 0 \<rparr>), Sent True 200)
   \<and> failure_count sample_webhook = 2"
proof -
  have a: "send_webhook always_503 0 (Some sample_webhook) ''import.completed'' ''{}''
     = (Some (sample_webhook\<lparr> last_response_code := Some 503, failure_count := 3 \<rparr>), RetryRequested 60)"
    by (simp add: send_webhook_def always_503_def sample_webhook_def retry_def max_retries_def)
  have b: "send_webhook thrice_503_then_200 3 (Some sample_webhook) ''import.completed'' ''{}''
     = (Some (sample_webhook\<lparr> last_response_code := Some 200, failure_count := 0 \<rparr>), Sent True 200)"
    by (simp add: send_webhook_def thrice_503_then_200_def sample_webhook_def)
  from failure_count_after_attempt [OF a] failure_count_after_attempt [OF b] a b
  show ?thesis by (simp add: sample_webhook_def)
qed

text \<open>The definitions reproduce the published digests: SHA-256 of abc (FIPS 180-4) and
  test case 2 of RFC 4231.\<close>

lemma sha256_abc:
  "hexdigest (sha256 (encode_utf8 ''abc'')) = ''ba7816bf8f01cfea414140de5dae2223b00361a396177a9cb410ff61f20015ad''"
  by code_simp

lemma hmac_sha256_rfc4231_case_2:
  "generate_signature ''what do ya want for nothing?'' ''Jefe''
     = ''5bdcc146bf60754e6a042426089575c75a003f089d2739839dec58b964ec3843''"
  by code_simp

lemma hmac_sha256_x_y:
  "generate_signature ''y'' ''x'' = ''1b56188fbdc65a885923886c8b7271332149050589d91803364521080cd0792d''"
  by code_simp

text \<open>
  Claim C7. The request of an execution carries no X-Webhook-Signature header when the
  webhook has no secret (none, or the empty string, which the code treats alike); with
  a secret it carries the header sha256= followed by the hexadecimal HMAC-SHA256, keyed
  by the bytes of the secret, of the bytes of the very body it sends. The signature is
  a function of payload string and secret: for secret x and payload y it is the digest
  that the reference implementation gives.
\<close>

theorem signature_header_iff_secret:
  "(secret wh = None \<or> secret wh = Some [] \<longrightarrow>
      map_of (headers (build_request en k wh event payload)) ''X-Webhook-Signature'' = None)
   \<and> (\<forall>s. secret wh = Some s \<and> s \<noteq> [] \<longrightarrow>
      map_of (headers (build_request en k wh event payload)) ''X-Webhook-Signature''
        = Some (''sha256='' @ hexdigest (hmac_sha256 (encode_utf8 s)
                                 (encode_utf8 (content (build_request en k wh event payload))))))"
  by (auto simp: build_request_def Let_def generate_signature_def)

theorem signature_header_iff_secret_witness:
  "secret sample_webhook = None
   \<and> map_of (headers (build_request echo_env 0 sample_webhook ''import.completed'' ''y'')) ''X-Webhook-Signature'' = None
   \<and> secret signed_webhook = Some ''x''
   \<and> content (build_request echo_env 0 signed_webhook ''import.completed'' ''y'') = ''y''
   \<and> map_of (headers (build_request echo_env 0 signed_webhook ''import.completed'' ''y'')) ''X-Webhook-Signature''
       = Some ''sha256=1b56188fbdc65a885923886c8b7271332149050589d91803364521080cd0792d''"
proof -
  have c: "content (build_request echo_env 0 signed_webhook ''import.completed'' ''y'') = ''y''"
    by (simp add: build_request_def echo_env_def Let_def)
  have s: "secret signed_webhook = Some ''x''" "secret sample_webhook = None"
    by (simp_all add: signed_webhook_def sample_webhook_def)
  from signature_header_iff_secret [of sample_webhook echo_env 0 "''import.completed''" "''y''"]
    signature_header_iff_secret [of signed_webhook echo_env 0 "''import.completed''" "''y''"]
    s c hmac_sha256_x_y
  show ?thesis by (simp add: generate_signature_def)
qed

section \<open>Properties of the upsert engine\<close>

lemma on_conflict_update_sku [simp]: "sku (on_conflict_update p r) = sku r"
  by (simp add: on_conflict_update_def)

lemma new_row_sku [simp]: "sku (new_row t p) = sku p"
  by (simp add: new_row_def)

lemma map_sku_update [simp]: "map sku (map (on_conflict_update p) t) = map sku t"
  by (induction t) simp_all

lemma sku_comp_update [simp]: "sku \<circ> on_conflict_update p = sku"
  by (simp add: fun_eq_iff)


lemma insert_on_conflict_skus:
  "insert_on_conflict touched ps t = Inr t'
     \<Longrightarrow> set (map sku t') = set (map sku t) \<union> set (map sku ps)"
proof (induction ps arbitrary: touched t)
  case Nil
  then show ?case by simp
next
  case (Cons p ps)
  show ?case
  proof (cases "sku p \<in> set (map sku t)")
    case True
    with Cons.prems have "insert_on_conflict (sku p # touched) ps (map (on_conflict_update p) t) = Inr t'"
      by (auto split: if_splits)
    from Cons.IH [OF this] True show ?thesis by auto
  next
    case False
    with Cons.prems have "insert_on_conflict (sku p # touched) ps (t @ [new_row t p]) = Inr t'"
      by (auto split: if_splits)
    from Cons.IH [OF this] show ?thesis by auto
  qed
qed

lemma insert_on_conflict_distinct:
  "insert_on_conflict touched ps t = Inr t' \<Longrightarrow> distinct (map sku t) \<Longrightarrow> distinct (map sku t')"
proof (induction ps arbitrary: touched t)
  case Nil
  then show ?case by simp
next
  case (Cons p ps)
  show ?case
  proof (cases "sku p \<in> set (map sku t)")
    case True
    with Cons.prems(1) have "insert_on_conflict (sku p # touched) ps (map (on_conflict_update p) t) = Inr t'"
      by (auto split: if_splits)
    from Cons.IH [OF this] Cons.prems(2) show ?thesis by simp
  next
    case False
    with Cons.prems(1) have "insert_on_conflict (sku p # touched) ps (t @ [new_row t p]) = Inr t'"
      by (auto split: if_splits)
    from Cons.IH [OF this] Cons.prems(2) False show ?thesis by simp
  qed
qed







lemma upsert_products_table:
  assumes "upsert_products t ps = Inr (t', c, u)"
  shows "insert_on_conflict [] ps t = Inr t'"
  using assms by (auto simp: upsert_products_def Let_def split: if_splits sum.splits prod.splits)



section \<open>Properties of the stored SKUs\<close>

lemma upper_char_idem [simp]: "upper_char (upper_char c) = upper_char c"
  by (auto simp: upper_char_def Let_def)

lemma upper_idem [simp]: "upper (upper s) = upper s"
  by (simp add: upper_def)

lemma upper_lower_char [simp]: "upper_char (lower_char c) = upper_char c"
  by (auto simp: upper_char_def lower_char_def Let_def)

lemma lower_upper_char [simp]: "lower_char (upper_char c) = lower_char c"
  by (auto simp: upper_char_def lower_char_def Let_def)

lemma upper_lower [simp]: "upper (lower s) = upper s"
  by (simp add: upper_def lower_def)

lemma lower_upper [simp]: "lower (upper s) = lower s"
  by (simp add: upper_def lower_def)

lemma lower_inj_on_upper:
  "upper a = a \<Longrightarrow> upper b = b \<Longrightarrow> lower a = lower b \<Longrightarrow> a = b"
  by (metis upper_lower)

lemma store_ok_case_insensitive:
  assumes "store_ok t"
  shows "distinct (map (\<lambda>r. lower (sku r)) t)"
proof -
  from assms have u: "\<forall>r \<in> set t. upper (sku r) = sku r" and d: "distinct (map sku t)"
    by (simp_all add: store_ok_def list_all_iff)
  from u have "inj_on lower (set (map sku t))"
    by (auto intro!: inj_onI dest: lower_inj_on_upper)
  with d have "distinct (map lower (map sku t))"
    by (subst distinct_map) simp
  then show ?thesis by (simp add: comp_def)
qed

subsection \<open>The endpoints\<close>

lemma create_product_store_ok:
  assumes "store_ok t" and "create_product d t = Inr t'"
  shows "store_ok t'"
proof -
  from assms(2) have none: "\<forall>r \<in> set t. lower (sku r) \<noteq> lower (sku d)"
    and t': "t' = t @ [new_row t (d\<lparr> sku := upper (sku d) \<rparr>)]"
    by (auto simp: create_product_def split: if_splits)
  have "upper (sku d) \<notin> set (map sku t)"
  proof
    assume "upper (sku d) \<in> set (map sku t)"
    then obtain r where "r \<in> set t" "sku r = upper (sku d)" by auto
    with none show False by (metis lower_upper)
  qed
  with assms(1) t' show ?thesis
    by (simp add: store_ok_def new_row_def)
qed

lemma apply_update_sku [simp]: "sku (apply_update u r) = sku r"
  by (simp add: apply_update_def)

lemma update_product_skus:
  "update_product i u t = Inr t' \<Longrightarrow> map sku t' = map sku t"
  by (auto simp: update_product_def split: if_splits)

lemma store_ok_skus:
  "store_ok t \<longleftrightarrow> list_all (\<lambda>s. upper s = s) (map sku t) \<and> distinct (map sku t)"
  by (simp add: store_ok_def list_all_iff)

lemma update_product_store_ok:
  "store_ok t \<Longrightarrow> update_product i u t = Inr t' \<Longrightarrow> store_ok t'"
  by (simp add: store_ok_skus update_product_skus)

lemma delete_product_store_ok:
  "store_ok t \<Longrightarrow> delete_product i t = Inr t' \<Longrightarrow> store_ok t'"
  by (auto simp: store_ok_def delete_product_def list_all_iff distinct_map_filter split: if_splits)

subsection \<open>The import\<close>

lemma upsert_products_store_ok:
  assumes "store_ok t" and "list_all (\<lambda>p. upper (sku p) = sku p) ps"
    and "upsert_products t ps = Inr (t', c, u)"
  shows "store_ok t'"
proof -
  note i = upsert_products_table [OF assms(3)]
  from insert_on_conflict_skus [OF i] assms(1,2)
  have "list_all (\<lambda>s. upper s = s) (map sku t')"
    by (auto simp: store_ok_def list_all_iff)
  moreover from insert_on_conflict_distinct [OF i] assms(1) have "distinct (map sku t')"
    by (simp add: store_ok_def)
  ultimately show ?thesis by (simp add: store_ok_skus)
qed

lemma parse_csv_row_sku_upper:
  "parse_csv_row row n = Valid d \<Longrightarrow> upper (sku d) = sku d"
proof -
  assume v: "parse_csv_row row n = Valid d"
  then have "field_errors row = []"
    using parse_csv_row_invalid [of row n] by auto
  from parse_csv_row_valid [OF this, of n] v show ?thesis by auto
qed

lemma account_row_batch_ok:
  "batch_ok l \<Longrightarrow> batch_ok (account_row row n l)"
  by (auto simp: batch_ok_def account_row_def Let_def dest: parse_csv_row_sku_upper split: parsed.splits)

lemma flush_batch_store_ok:
  assumes "store_ok (products w)" and "batch_ok l"
  shows "flush_batch cfg l w = Inr (l', w') \<Longrightarrow> store_ok (products w') \<and> batch_ok l'"
    and "flush_batch cfg l w = Inl (e, w') \<Longrightarrow> store_ok (products w')"
  using assms
  by (auto simp: flush_batch_def batch_ok_def split: if_splits sum.splits prod.splits
      dest: upsert_products_store_ok)

lemma publish_progress_products:
  "publish_progress cfg tot l w = Inr (l', w') \<Longrightarrow> products w' = products w"
  "publish_progress cfg tot l w = Inl (e, w') \<Longrightarrow> products w' = products w"
  by (auto simp: publish_progress_def Let_def split: if_splits sum.splits)

lemma process_row_store_ok:
  assumes "store_ok (products w)" and "batch_ok l"
  shows "process_row cfg tot n row l w = Inr (l', w') \<Longrightarrow> store_ok (products w') \<and> batch_ok l'"
    and "process_row cfg tot n row l w = Inl (e, w') \<Longrightarrow> store_ok (products w')"
proof -
  note b = account_row_batch_ok [OF assms(2), of row n]
  note fl = flush_batch_store_ok [OF assms(1) b]
  show "store_ok (products w') \<and> batch_ok l'" if r: "process_row cfg tot n row l w = Inr (l', w')"
  proof -
    from r obtain l1 w1 where
      f: "flush_batch cfg (account_row row n l) w = Inr (l1, w1)" and
      p: "publish_progress cfg tot l1 w1 = Inr (l', w')"
      by (auto simp: process_row_def split: sum.splits prod.splits)
    from fl(1) [OF f] publish_progress_locals [OF p] publish_progress_products(1) [OF p]
    show ?thesis by simp
  qed
  show "store_ok (products w')" if r: "process_row cfg tot n row l w = Inl (e, w')"
  proof (cases "flush_batch cfg (account_row row n l) w")
    case (Inl a)
    with r have "flush_batch cfg (account_row row n l) w = Inl (e, w')"
      by (simp add: process_row_def)
    from fl(2) [OF this] show ?thesis .
  next
    case (Inr c)
    then obtain l1 w1 where f: "flush_batch cfg (account_row row n l) w = Inr (l1, w1)"
      by (cases c) simp
    with r have p: "publish_progress cfg tot l1 w1 = Inl (e, w')"
      by (simp add: process_row_def)
    from fl(1) [OF f] publish_progress_products(2) [OF p] show ?thesis by simp
  qed
qed

lemma process_rows_store_ok:
  "store_ok (products w) \<Longrightarrow> batch_ok l \<Longrightarrow>
     (\<forall>l' w'. process_rows cfg tot n rows l w = Inr (l', w') \<longrightarrow> store_ok (products w') \<and> batch_ok l')
     \<and> (\<forall>e w'. process_rows cfg tot n rows l w = Inl (e, w') \<longrightarrow> store_ok (products w'))"
proof (induction rows arbitrary: n l w)
  case Nil
  then show ?case by simp
next
  case (Cons row rest)
  show ?case
  proof (cases "process_row cfg tot n row l w")
    case (Inl a)
    then obtain e w1 where a: "a = (e, w1)" by (cases a)
    with Inl process_row_store_ok(2) [OF Cons.prems, of cfg tot n row e w1] show ?thesis by simp
  next
    case (Inr b)
    then obtain l1 w1 where b: "b = (l1, w1)" by (cases b)
    with Inr process_row_store_ok(1) [OF Cons.prems, of cfg tot n row l1 w1]
    have "store_ok (products w1)" "batch_ok l1" by simp_all
    from Cons.IH [OF this, of "n + 1"] Inr b show ?thesis by simp
  qed
qed

lemma flush_remaining_store_ok:
  assumes "store_ok (products w)" and "batch_ok l"
  shows "flush_remaining l w = Inr (l', w') \<Longrightarrow> store_ok (products w')"
    and "flush_remaining l w = Inl (e, w') \<Longrightarrow> store_ok (products w')"
  using assms
  by (auto simp: flush_remaining_def batch_ok_def split: if_splits sum.splits prod.splits
      dest: upsert_products_store_ok)

lemma try_body_store_ok:
  assumes "store_ok (products w)"
  shows "try_body cfg f w = Inr (l', w') \<Longrightarrow> store_ok (products w')"
    and "try_body cfg f w = Inl (e, w') \<Longrightarrow> store_ok (products w')"
proof -
  let ?w2 = "w\<lparr> job := (job w)\<lparr> status := Parsing \<rparr>,
                 log := log w @ [StatusSet Parsing, Published (snapshot_of Parsing 0 initial_locals None)] \<rparr>
              \<lparr> job := (job w)\<lparr> status := Parsing, total_rows := count_csv_rows f \<rparr>,
                log := (log w @ [StatusSet Parsing, Published (snapshot_of Parsing 0 initial_locals None)])
                         @ [Published (snapshot_of Validating (count_csv_rows f) initial_locals None)] \<rparr>"
  have s: "store_ok (products ?w2)" using assms by simp
  have b: "batch_ok initial_locals" by (simp add: batch_ok_def initial_locals_def)
  note p = process_rows_store_ok [OF s b, of cfg "count_csv_rows f" 2 "reader_rows f"]
  show "try_body cfg f w = Inr (l', w') \<Longrightarrow> store_ok (products w')"
    using p
    by (auto simp: try_body_def Let_def mark_completed_def split: sum.splits prod.splits
        dest: flush_remaining_store_ok(1))
  show "try_body cfg f w = Inl (e, w') \<Longrightarrow> store_ok (products w')"
    using p
    by (auto simp: try_body_def Let_def split: sum.splits prod.splits
        dest: flush_remaining_store_ok(2))
qed

lemma import_csv_task_store_ok:
  assumes "store_ok t"
  shows "import_csv_task cfg f (Some j) t = Returned c w \<Longrightarrow> store_ok (products w)"
    and "import_csv_task cfg f (Some j) t = Raised e w \<Longrightarrow> store_ok (products w)"
  using try_body_store_ok [of "\<lparr> job = j, products = t, log = [] \<rparr>" cfg f] assms
  by (auto simp: import_csv_task_def mark_failed_def Let_def split: sum.splits prod.splits)

lemma reachable_store_ok: "reachable t \<Longrightarrow> store_ok t"
proof (induction rule: reachable.induct)
  case empty
  show ?case by (simp add: store_ok_def)
next
  case (created t raw d t')
  then show ?case by (simp add: create_product_store_ok)
next
  case (updated t i u t')
  then show ?case by (simp add: update_product_store_ok)
next
  case (deleted t i t')
  then show ?case by (simp add: delete_product_store_ok)
next
  case (deleted_all t)
  show ?case by (simp add: store_ok_def)
next
  case (imported t cfg f j c w)
  then show ?case by (simp add: import_csv_task_store_ok(1))
next
  case (import_failed t cfg f j e w)
  then show ?case by (simp add: import_csv_task_store_ok(2))
qed

text \<open>
  Claim C9. In every table that creating, updating, deleting and importing can produce
  from the empty table, every stored SKU is in upper case and no two rows have SKUs
  that are equal up to case. Each write path does its part: the creation endpoint
  stores the trimmed SKU of the request in upper case, the update endpoint stores no
  SKU at all (the SKUs of the table stay as they are), and the SKU of every record the
  validator passes to the upsert is the trimmed SKU of the row in upper case.
\<close>

theorem reachable_skus_upper_and_unique:
  assumes "reachable t"
  shows "list_all (\<lambda>r. upper (sku r) = sku r) t
         \<and> distinct (map (\<lambda>r. lower (sku r)) t)
         \<and> (\<forall>raw d t'. ProductCreate raw = Some d \<and> create_product d t = Inr t' \<longrightarrow>
               (\<exists>r. t' = t @ [r] \<and> sku r = upper (strip (sku raw))))
         \<and> (\<forall>i u t'. update_product i u t = Inr t' \<longrightarrow> map sku t' = map sku t)
         \<and> (\<forall>row n d. parse_csv_row row n = Valid d \<longrightarrow> sku d = upper (strip (get row ''sku'')))"
proof (intro conjI allI impI)
  from reachable_store_ok [OF assms] show "list_all (\<lambda>r. upper (sku r) = sku r) t"
    by (simp add: store_ok_def)
  from reachable_store_ok [OF assms] show "distinct (map (\<lambda>r. lower (sku r)) t)"
    by (rule store_ok_case_insensitive)
next
  fix raw d t'
  assume "ProductCreate raw = Some d \<and> create_product d t = Inr t'"
  then show "\<exists>r. t' = t @ [r] \<and> sku r = upper (strip (sku raw))"
    by (auto simp: ProductCreate_def create_product_def sku_must_be_valid_def new_row_def
        split: if_splits)
next
  fix i u t'
  assume "update_product i u t = Inr t'"
  then show "map sku t' = map sku t" by (rule update_product_skus)
next
  fix row n d
  assume v: "parse_csv_row row n = Valid d"
  then have "field_errors row = []"
    using parse_csv_row_invalid [of row n] by auto
  from parse_csv_row_valid [OF this, of n] v show "sku d = upper (strip (get row ''sku''))" by auto
qed

theorem reachable_skus_upper_and_unique_witness:
  "reachable [sample_row ''AB-1'' ''Widget'' 3 1]
   \<and> ProductCreate sample_request = Some (sample_record ''AB-1'' ''Widget'' 3)
   \<and> create_product (sample_record ''AB-1'' ''Widget'' 3) [] = Inr [sample_row ''AB-1'' ''Widget'' 3 1]
   \<and> list_all (\<lambda>r. upper (sku r) = sku r) [sample_row ''AB-1'' ''Widget'' 3 1]
   \<and> distinct (map (\<lambda>r. lower (sku r)) [sample_row ''AB-1'' ''Widget'' 3 1])"
proof -
  have v: "ProductCreate sample_request = Some (sample_record ''AB-1'' ''Widget'' 3)"
    by code_simp
  have c: "create_product (sample_record ''AB-1'' ''Widget'' 3) [] = Inr [sample_row ''AB-1'' ''Widget'' 3 1]"
    by code_simp
  from reachable.created [OF reachable.empty v c]
  have r: "reachable [sample_row ''AB-1'' ''Widget'' 3 1]" .
  from reachable_skus_upper_and_unique [OF r] r v c show ?thesis by simp
qed

section \<open>Properties of the job status\<close>

lemma job_statuses_append [simp]: "job_statuses (xs @ ys) = job_statuses xs @ job_statuses ys"
  by (induction xs rule: job_statuses.induct) simp_all

lemma published_statuses_append [simp]:
  "published_statuses (xs @ ys) = published_statuses xs @ published_statuses ys"
  by (induction xs rule: published_statuses.induct) simp_all

lemma upserts_append [simp]: "upserts (xs @ ys) = upserts xs @ upserts ys"
  by (induction xs rule: upserts.induct) simp_all

lemma snapshot_of_status [simp]: "snapshot_status (snapshot_of st tot c pct) = st"
  by (simp add: snapshot_of_def)










subsection \<open>Importing without a flush, a flush without importing\<close>






section \<open>Properties of the progress percentage\<close>

lemma round2_zero [simp]: "round2 0 = 0"
  by (simp add: round2_def round_half_even_def)






subsection \<open>No division by zero when the records fit the lines\<close>








end
